theory Spec2Isabelle
  imports Main "HOL-Library.Word"
begin

section \<open>EncryptedWaterAllocator: storage, library capability and entry points\<close>

text \<open>
  The contract \<^verbatim>\<open>EncryptedWaterAllocator\<close> is embedded function by function. Solidity
  value types keep their width: \<^verbatim>\<open>uint256\<close> and \<^verbatim>\<open>bytes32\<close> are 256-bit words,
  \<^verbatim>\<open>uint32\<close> is a 32-bit word, \<^verbatim>\<open>bytes\<close> is a list of octets. A Solidity mapping
  has no notion of an absent key: reading a slot that was never written gives the zero value
  of the value type, so every mapping is a total function.
\<close>

type_synonym uint256 = "256 word"
type_synonym uint32 = "32 word"
type_synonym bytes32 = "256 word"
type_synonym bytes = "8 word list"

subsection \<open>The imported FHE library\<close>

text \<open>
  The type \<^verbatim>\<open>euint32\<close> and the functions \<^verbatim>\<open>FHE.*\<close> come from the imported package
  \<^verbatim>\<open>@fhevm/solidity\<close>, which is not part of the repository. They are a parameter of
  every entry point: the handle type is the type variable \<open>'h\<close>, and the record below
  collects what the contract uses of the library.
  \<^item> \<open>zeroHandle\<close> is the zero value of \<^verbatim>\<open>euint32\<close>, read from unwritten slots;
  \<^item> \<open>euint32_conv\<close> is the type conversion \<^verbatim>\<open>euint32(demand)\<close> of \<^verbatim>\<open>decryptRequest\<close>,
    which is not \<^verbatim>\<open>FHE.asEuint32\<close>;
  \<^item> \<open>FHE_checkSignatures\<close> answers whether \<^verbatim>\<open>FHE.checkSignatures\<close> returns (it reverts
    otherwise);
  \<^item> \<open>keccak256_packed zone\<close> is \<^verbatim>\<open>keccak256(abi.encodePacked(zone))\<close>.
  The identifier that \<^verbatim>\<open>FHE.requestDecryption\<close> returns is chosen by the oracle; it is an
  argument (\<open>decReqId\<close>) of the two entry points that make that call. The other library
  calls are functions of their arguments and always return.
\<close>

record 'h FHE =
  zeroHandle :: 'h
  FHE_isInitialized :: "'h \<Rightarrow> bool"
  FHE_asEuint32 :: "uint32 \<Rightarrow> 'h"
  FHE_add :: "'h \<Rightarrow> 'h \<Rightarrow> 'h"
  FHE_toBytes32 :: "'h \<Rightarrow> bytes32"
  euint32_conv :: "uint32 \<Rightarrow> 'h"
  FHE_checkSignatures :: "uint256 \<Rightarrow> bytes \<Rightarrow> bytes \<Rightarrow> bool"
  keccak256_packed :: "string \<Rightarrow> bytes32"

subsection \<open>Structs, events and storage\<close>

record 'h EncryptedRequest =
  id_req :: uint256
  encryptedDemand :: 'h
  encryptedPriority :: 'h
  timestamp :: uint256

record DecryptedRequest =
  demand :: uint32
  priority :: uint32
  processed :: bool

datatype 'h event =
    RequestSubmitted uint256 uint256
  | DecryptionRequested uint256
  | RequestDecrypted uint256
  | AllocationUpdated string 'h

datatype selector = decryptRequest_selector | decryptAllocation_selector

text \<open>
  The six storage variables of the contract, followed by the two things the contract sends
  out: the events it emits and the decryption requests it hands to the oracle
  (\<^verbatim>\<open>FHE.requestDecryption(ciphertexts, selector)\<close>), both in the order of emission.
\<close>

record 'h state =
  requestCount :: uint256
  encryptedRequests :: "uint256 \<Rightarrow> 'h EncryptedRequest"
  decryptedRequests :: "uint256 \<Rightarrow> DecryptedRequest"
  encryptedAllocation :: "string \<Rightarrow> 'h"
  zoneList :: "string list"
  requestToId :: "uint256 \<Rightarrow> uint256"
  events :: "'h event list"
  oracleRequests :: "(bytes32 list \<times> selector) list"

definition zero_EncryptedRequest :: "'h FHE \<Rightarrow> 'h EncryptedRequest" where
  "zero_EncryptedRequest fhe =
     \<lparr>id_req = 0, encryptedDemand = zeroHandle fhe, encryptedPriority = zeroHandle fhe,
      timestamp = 0\<rparr>"

definition zero_DecryptedRequest :: DecryptedRequest where
  "zero_DecryptedRequest = \<lparr>demand = 0, priority = 0, processed = False\<rparr>"

text \<open>The storage of the freshly deployed contract: every slot is zero.\<close>

definition init :: "'h FHE \<Rightarrow> 'h state" where
  "init fhe =
     \<lparr>requestCount = 0,
      encryptedRequests = (\<lambda>_. zero_EncryptedRequest fhe),
      decryptedRequests = (\<lambda>_. zero_DecryptedRequest),
      encryptedAllocation = (\<lambda>_. zeroHandle fhe),
      zoneList = [],
      requestToId = (\<lambda>_. 0),
      events = [],
      oracleRequests = []\<rparr>"

subsection \<open>Reverts\<close>

text \<open>
  The three \<^verbatim>\<open>require\<close>/\<^verbatim>\<open>revert\<close> messages of the contract, the revert of
  \<^verbatim>\<open>FHE.checkSignatures\<close>, the revert of \<^verbatim>\<open>abi.decode\<close> on malformed data, and the
  arithmetic panic of checked \<^verbatim>\<open>uint256\<close> addition (Solidity 0.8).

  An entry point ends in \<open>Done s'\<close> or in \<open>Reverted e s'\<close>, where \<open>s'\<close> is the storage as
  the statements executed so far have left it at the moment of the revert, before the EVM
  rolls the transaction back. \<open>transact\<close> below does the rollback.
\<close>

datatype error =
    AlreadyDecrypted
  | InvalidRequest
  | ZoneNotFound
  | InvalidProof
  | DecodeFailure
  | ArithmeticOverflow

datatype 'h result = Reverted error "'h state" | Done "'h state"

subsection \<open>\<^verbatim>\<open>abi.decode\<close>\<close>

text \<open>
  \<^verbatim>\<open>abi.decode(cleartexts, (uint32, uint32))\<close> reads two 32-byte big-endian words and
  reverts when the data is shorter than 64 bytes or a word does not fit 32 bits; bytes after
  the last word are ignored. \<^verbatim>\<open>abi.decode(cleartexts, (uint32))\<close> reads one word.
\<close>

definition be_uint :: "bytes \<Rightarrow> nat" where
  "be_uint bs = foldl (\<lambda>acc b. acc * 256 + unat b) 0 bs"

definition abi_word_uint32 :: "bytes \<Rightarrow> nat \<Rightarrow> uint32 option" where
  "abi_word_uint32 bs i =
     (let w = be_uint (take 32 (drop (32 * i) bs))
      in if w < 2 ^ 32 then Some (of_nat w) else None)"

definition abi_decode_uint32_uint32 :: "bytes \<Rightarrow> (uint32 \<times> uint32) option" where
  "abi_decode_uint32_uint32 bs =
     (if length bs < 64 then None
      else case abi_word_uint32 bs 0 of
             None \<Rightarrow> None
           | Some a \<Rightarrow> (case abi_word_uint32 bs 1 of None \<Rightarrow> None | Some b \<Rightarrow> Some (a, b)))"

definition abi_decode_uint32 :: "bytes \<Rightarrow> uint32 option" where
  "abi_decode_uint32 bs = (if length bs < 32 then None else abi_word_uint32 bs 0)"

subsection \<open>Entry points\<close>

text \<open>
  \<^verbatim>\<open>submitEncryptedRequest\<close>. The third argument is \<^verbatim>\<open>block.timestamp\<close>. The checked
  increment \<^verbatim>\<open>requestCount += 1\<close> panics at \<open>2^256 - 1\<close>, which is the word \<open>- 1\<close>.
\<close>

definition submitEncryptedRequest ::
  "'h \<Rightarrow> 'h \<Rightarrow> uint256 \<Rightarrow> 'h state \<Rightarrow> 'h result" where
  "submitEncryptedRequest encDemand encPriority block_timestamp s =
     (if requestCount s = - 1 then Reverted ArithmeticOverflow s
      else
        let s1 = s\<lparr>requestCount := requestCount s + 1\<rparr>;
            newId = requestCount s1;
            s2 = s1\<lparr>encryptedRequests := (encryptedRequests s1)
                    (newId := \<lparr>id_req = newId, encryptedDemand = encDemand,
                               encryptedPriority = encPriority,
                               timestamp = block_timestamp\<rparr>)\<rparr>;
            s3 = s2\<lparr>decryptedRequests := (decryptedRequests s2)
                    (newId := \<lparr>demand = 0, priority = 0, processed = False\<rparr>)\<rparr>
        in Done (s3\<lparr>events := events s3 @ [RequestSubmitted newId block_timestamp]\<rparr>))"

text \<open>
  \<^verbatim>\<open>requestDecryption\<close>. The modifier \<^verbatim>\<open>onlyRequester\<close> has the body \<^verbatim>\<open>_;\<close> and checks
  nothing. \<open>decReqId\<close> is what \<^verbatim>\<open>FHE.requestDecryption\<close> returns.
\<close>

definition requestDecryption ::
  "'h FHE \<Rightarrow> uint256 \<Rightarrow> uint256 \<Rightarrow> 'h state \<Rightarrow> 'h result" where
  "requestDecryption fhe reqId decReqId s =
     (let req = encryptedRequests s reqId
      in if processed (decryptedRequests s reqId) then Reverted AlreadyDecrypted s
         else
           let ciphertexts = [FHE_toBytes32 fhe (encryptedDemand req),
                              FHE_toBytes32 fhe (encryptedPriority req)];
               s1 = s\<lparr>oracleRequests :=
                        oracleRequests s @ [(ciphertexts, decryptRequest_selector)]\<rparr>;
               s2 = s1\<lparr>requestToId := (requestToId s1)(decReqId := reqId)\<rparr>
           in Done (s2\<lparr>events := events s2 @ [DecryptionRequested reqId]\<rparr>))"

text \<open>\<^verbatim>\<open>updateZoneAllocation\<close> (internal, no revert of its own).\<close>

definition updateZoneAllocation :: "'h FHE \<Rightarrow> string \<Rightarrow> 'h \<Rightarrow> 'h state \<Rightarrow> 'h state" where
  "updateZoneAllocation fhe zone additional s =
     (let s1 = (if \<not> FHE_isInitialized fhe (encryptedAllocation s zone)
                then s\<lparr>encryptedAllocation :=
                         (encryptedAllocation s)(zone := FHE_asEuint32 fhe 0),
                       zoneList := zoneList s @ [zone]\<rparr>
                else s);
          s2 = s1\<lparr>encryptedAllocation := (encryptedAllocation s1)
                  (zone := FHE_add fhe (encryptedAllocation s1 zone) additional)\<rparr>
      in s2\<lparr>events := events s2 @ [AllocationUpdated zone (encryptedAllocation s2 zone)]\<rparr>)"

text \<open>\<^verbatim>\<open>decryptRequest\<close>, the callback of the oracle for a request.\<close>

definition decryptRequest ::
  "'h FHE \<Rightarrow> uint256 \<Rightarrow> bytes \<Rightarrow> bytes \<Rightarrow> 'h state \<Rightarrow> 'h result" where
  "decryptRequest fhe decReqId cleartexts proof s =
     (let reqId = requestToId s decReqId
      in if reqId = 0 then Reverted InvalidRequest s
         else if processed (decryptedRequests s reqId) then Reverted AlreadyDecrypted s
         else if \<not> FHE_checkSignatures fhe decReqId cleartexts proof
              then Reverted InvalidProof s
         else case abi_decode_uint32_uint32 cleartexts of
                None \<Rightarrow> Reverted DecodeFailure s
              | Some (dem, prio) \<Rightarrow>
                  let s1 = s\<lparr>decryptedRequests := (decryptedRequests s)
                              (reqId := (decryptedRequests s reqId)\<lparr>demand := dem\<rparr>)\<rparr>;
                      s2 = s1\<lparr>decryptedRequests := (decryptedRequests s1)
                              (reqId := (decryptedRequests s1 reqId)\<lparr>priority := prio\<rparr>)\<rparr>;
                      s3 = s2\<lparr>decryptedRequests := (decryptedRequests s2)
                              (reqId := (decryptedRequests s2 reqId)\<lparr>processed := True\<rparr>)\<rparr>;
                      s4 = updateZoneAllocation fhe ''main_zone'' (euint32_conv fhe dem) s3
                  in Done (s4\<lparr>events := events s4 @ [RequestDecrypted reqId]\<rparr>))"

text \<open>The two view functions. Neither has a revert.\<close>

definition getDecryptedRequest ::
  "'h state \<Rightarrow> uint256 \<Rightarrow> error + (uint32 \<times> uint32 \<times> bool)" where
  "getDecryptedRequest s reqId =
     (let r = decryptedRequests s reqId in Inr (demand r, priority r, processed r))"

definition getEncryptedAllocation :: "'h state \<Rightarrow> string \<Rightarrow> error + 'h" where
  "getEncryptedAllocation s zone = Inr (encryptedAllocation s zone)"

text \<open>\<^verbatim>\<open>requestAllocationDecryption\<close>; \<open>decReqId\<close> is the identifier the oracle returns.\<close>

definition requestAllocationDecryption ::
  "'h FHE \<Rightarrow> string \<Rightarrow> uint256 \<Rightarrow> 'h state \<Rightarrow> 'h result" where
  "requestAllocationDecryption fhe zone decReqId s =
     (let count = encryptedAllocation s zone
      in if \<not> FHE_isInitialized fhe count then Reverted ZoneNotFound s
         else
           let ciphertexts = [FHE_toBytes32 fhe count];
               s1 = s\<lparr>oracleRequests :=
                        oracleRequests s @ [(ciphertexts, decryptAllocation_selector)]\<rparr>
           in Done (s1\<lparr>requestToId :=
                          (requestToId s1)(decReqId := keccak256_packed fhe zone)\<rparr>))"

text \<open>\<^verbatim>\<open>getZoneFromHash\<close>: the loop over \<^verbatim>\<open>zoneList\<close>, \<open>None\<close> for its final revert.\<close>

fun getZoneFromHash_loop :: "'h FHE \<Rightarrow> string list \<Rightarrow> uint256 \<Rightarrow> string option" where
  "getZoneFromHash_loop fhe [] h = None"
| "getZoneFromHash_loop fhe (z # zs) h =
     (if keccak256_packed fhe z = h then Some z else getZoneFromHash_loop fhe zs h)"

definition getZoneFromHash :: "'h FHE \<Rightarrow> 'h state \<Rightarrow> uint256 \<Rightarrow> string option" where
  "getZoneFromHash fhe s h = getZoneFromHash_loop fhe (zoneList s) h"

text \<open>\<^verbatim>\<open>decryptAllocation\<close>: decodes the value and writes nothing.\<close>

definition decryptAllocation ::
  "'h FHE \<Rightarrow> uint256 \<Rightarrow> bytes \<Rightarrow> bytes \<Rightarrow> 'h state \<Rightarrow> 'h result" where
  "decryptAllocation fhe reqId cleartexts proof s =
     (let zoneHash = requestToId s reqId
      in case getZoneFromHash fhe s zoneHash of
           None \<Rightarrow> Reverted ZoneNotFound s
         | Some zone \<Rightarrow>
             if \<not> FHE_checkSignatures fhe reqId cleartexts proof
             then Reverted InvalidProof s
             else (case abi_decode_uint32 cleartexts of
                     None \<Rightarrow> Reverted DecodeFailure s
                   | Some v \<Rightarrow> Done s))"

subsection \<open>Transactions and runs\<close>

text \<open>
  A call of a state-changing entry point with its arguments (and, where the entry point asks
  the environment, the timestamp of the block or the identifier the oracle returns). A
  transaction that reverts leaves the storage as it was before the call.
\<close>

datatype 'h call =
    SubmitEncryptedRequest 'h 'h uint256
  | RequestDecryption uint256 uint256
  | DecryptRequest uint256 bytes bytes
  | RequestAllocationDecryption string uint256
  | DecryptAllocation uint256 bytes bytes

fun dispatch :: "'h FHE \<Rightarrow> 'h call \<Rightarrow> 'h state \<Rightarrow> 'h result" where
  "dispatch fhe (SubmitEncryptedRequest d p ts) s = submitEncryptedRequest d p ts s"
| "dispatch fhe (RequestDecryption reqId decReqId) s = requestDecryption fhe reqId decReqId s"
| "dispatch fhe (DecryptRequest decReqId ct pf) s = decryptRequest fhe decReqId ct pf s"
| "dispatch fhe (RequestAllocationDecryption zone decReqId) s =
     requestAllocationDecryption fhe zone decReqId s"
| "dispatch fhe (DecryptAllocation reqId ct pf) s = decryptAllocation fhe reqId ct pf s"

definition transact :: "'h FHE \<Rightarrow> 'h call \<Rightarrow> 'h state \<Rightarrow> 'h state" where
  "transact fhe c s = (case dispatch fhe c s of Done s' \<Rightarrow> s' | Reverted e s' \<Rightarrow> s)"

fun run :: "'h FHE \<Rightarrow> 'h call list \<Rightarrow> 'h state \<Rightarrow> 'h state" where
  "run fhe [] s = s"
| "run fhe (c # cs) s = run fhe cs (transact fhe c s)"

subsection \<open>What a run shows from outside\<close>

text \<open>
  \<^verbatim>\<open>submitEncryptedRequest\<close> returns nothing; the identifier it assigns is the one it
  announces in \<^verbatim>\<open>RequestSubmitted\<close>. \<open>submitted_ids\<close> reads these identifiers off the
  events, in the order of emission.
\<close>

definition submitted_ids :: "'h event list \<Rightarrow> uint256 list" where
  "submitted_ids es = concat (map (\<lambda>e. case e of RequestSubmitted i t \<Rightarrow> [i] | _ \<Rightarrow> []) es)"

fun is_submission :: "'h call \<Rightarrow> bool" where
  "is_submission (SubmitEncryptedRequest d p ts) = True"
| "is_submission c = False"

text \<open>
  The callback identifiers stored into \<^verbatim>\<open>requestToId\<close> during a run: those of the calls
  of \<^verbatim>\<open>requestDecryption\<close> and \<^verbatim>\<open>requestAllocationDecryption\<close> that did not revert.
\<close>

fun registered :: "'h FHE \<Rightarrow> 'h call list \<Rightarrow> 'h state \<Rightarrow> uint256 list" where
  "registered fhe [] s = []"
| "registered fhe (c # cs) s =
     (case dispatch fhe c s of
        Reverted e s' \<Rightarrow> []
      | Done s' \<Rightarrow> (case c of
                     RequestDecryption reqId decReqId \<Rightarrow> [decReqId]
                   | RequestAllocationDecryption zone decReqId \<Rightarrow> [decReqId]
                   | _ \<Rightarrow> []))
     @ registered fhe cs (transact fhe c s)"

text \<open>
  The demands revealed during a run: for every call of \<^verbatim>\<open>decryptRequest\<close> that did not
  revert, the demand it stored for the request it resolved.
\<close>

fun resolved_demands :: "'h FHE \<Rightarrow> 'h call list \<Rightarrow> 'h state \<Rightarrow> uint32 list" where
  "resolved_demands fhe [] s = []"
| "resolved_demands fhe (c # cs) s =
     (case c of
        DecryptRequest decReqId ct pf \<Rightarrow>
          (case decryptRequest fhe decReqId ct pf s of
             Reverted e s' \<Rightarrow> []
           | Done s' \<Rightarrow> [demand (decryptedRequests s' (requestToId s decReqId))])
      | _ \<Rightarrow> [])
     @ resolved_demands fhe cs (transact fhe c s)"

text \<open>
  The identifiers resolved during a run: for every call of \<^verbatim>\<open>decryptRequest\<close> that did
  not revert, the identifier its callback led to.
\<close>

fun resolved_ids :: "'h FHE \<Rightarrow> 'h call list \<Rightarrow> 'h state \<Rightarrow> uint256 list" where
  "resolved_ids fhe [] s = []"
| "resolved_ids fhe (c # cs) s =
     (case c of
        DecryptRequest decReqId ct pf \<Rightarrow>
          (case decryptRequest fhe decReqId ct pf s of
             Reverted e s' \<Rightarrow> []
           | Done s' \<Rightarrow> [requestToId s decReqId])
      | _ \<Rightarrow> [])
     @ resolved_ids fhe cs (transact fhe c s)"

text \<open>
  The identifiers issued during a run: for every call of \<^verbatim>\<open>submitEncryptedRequest\<close>
  that did not revert, the identifier it assigned.
\<close>

fun issued_during :: "'h FHE \<Rightarrow> 'h call list \<Rightarrow> 'h state \<Rightarrow> uint256 list" where
  "issued_during fhe [] s = []"
| "issued_during fhe (c # cs) s =
     (case c of
        SubmitEncryptedRequest d p ts \<Rightarrow>
          (case submitEncryptedRequest d p ts s of
             Reverted e s' \<Rightarrow> []
           | Done s' \<Rightarrow> [requestCount s'])
      | _ \<Rightarrow> [])
     @ issued_during fhe cs (transact fhe c s)"

subsection \<open>Assumptions on the library, and a plaintext mirror of it\<close>

text \<open>
  What the accumulator needs of the library for its total to mean anything, relative to a
  decryption function \<open>dec\<close> of the oracle: the zero handle is not initialised, sums are
  initialised handles, \<^verbatim>\<open>FHE.asEuint32(0)\<close> decrypts to \<open>0\<close>, \<^verbatim>\<open>FHE.add\<close> adds the
  plaintexts (as \<^verbatim>\<open>uint32\<close>, so modulo \<open>2^32\<close>), and the conversion \<^verbatim>\<open>euint32(d)\<close>
  gives a handle that decrypts to \<open>d\<close>.
\<close>

definition homomorphic :: "'h FHE \<Rightarrow> ('h \<Rightarrow> uint32) \<Rightarrow> bool" where
  "homomorphic fhe dec \<longleftrightarrow>
     \<not> FHE_isInitialized fhe (zeroHandle fhe) \<and>
     (\<forall>a b. FHE_isInitialized fhe (FHE_add fhe a b)) \<and>
     dec (FHE_asEuint32 fhe 0) = 0 \<and>
     (\<forall>a b. dec (FHE_add fhe a b) = dec a + dec b) \<and>
     (\<forall>d. dec (euint32_conv fhe d) = d)"

text \<open>
  A plaintext mirror of the library, for concrete runs: a handle is \<open>None\<close> (the zero
  handle) or \<open>Some\<close> of the plaintext it stands for; a proof is accepted when it is not
  empty; the hash of a zone name is its length.
\<close>

definition plain_FHE :: "(uint32 option) FHE" where
  "plain_FHE =
     \<lparr>zeroHandle = None,
      FHE_isInitialized = (\<lambda>h. h \<noteq> None),
      FHE_asEuint32 = Some,
      FHE_add = (\<lambda>a b. Some ((case a of None \<Rightarrow> 0 | Some x \<Rightarrow> x)
                              + (case b of None \<Rightarrow> 0 | Some y \<Rightarrow> y))),
      FHE_toBytes32 = (\<lambda>h. case h of None \<Rightarrow> 0 | Some x \<Rightarrow> ucast x + 1),
      euint32_conv = Some,
      FHE_checkSignatures = (\<lambda>decReqId cleartexts pf. pf \<noteq> []),
      keccak256_packed = (\<lambda>zone. of_nat (length zone))\<rparr>"

definition plain_decrypt :: "uint32 option \<Rightarrow> uint32" where
  "plain_decrypt h = (case h of None \<Rightarrow> 0 | Some x \<Rightarrow> x)"

text \<open>The ABI encoding of one \<^verbatim>\<open>uint32\<close>, to build the cleartexts of concrete callbacks.\<close>

definition abi_encode_uint32 :: "uint32 \<Rightarrow> bytes" where
  "abi_encode_uint32 x =
     replicate 28 0 @
     [ucast (drop_bit 24 x), ucast (drop_bit 16 x), ucast (drop_bit 8 x), ucast x]"

subsection \<open>Invariants of the storage\<close>

text \<open>
  The identifiers announced so far are \<open>1, \<dots>, requestCount\<close>, in this order.
\<close>

definition ids_ok :: "'h state \<Rightarrow> bool" where
  "ids_ok s \<longleftrightarrow> map unat (submitted_ids (events s)) = [1 ..< Suc (unat (requestCount s))]"

text \<open>
  An entry of \<^verbatim>\<open>decryptedRequests\<close> that is not marked processed holds no revealed value.
\<close>

definition unresolved_zero :: "'h state \<Rightarrow> bool" where
  "unresolved_zero s \<longleftrightarrow>
     (\<forall>i. \<not> processed (decryptedRequests s i) \<longrightarrow>
          demand (decryptedRequests s i) = 0 \<and> priority (decryptedRequests s i) = 0)"

text \<open>
  A request that was issued (its identifier is at most the counter) and is marked processed.
\<close>

definition resolved_for_good :: "uint256 \<Rightarrow> 'h state \<Rightarrow> bool" where
  "resolved_for_good r s \<longleftrightarrow>
     unat r \<le> unat (requestCount s) \<and> processed (decryptedRequests s r)"

text \<open>The encrypted running total of the zone every resolution contributes to.\<close>

definition main_total :: "'h state \<Rightarrow> 'h" where
  "main_total s = encryptedAllocation s ''main_zone''"

text \<open>
  An identifier no submission has assigned: \<open>0\<close>, or one above the counter. The entry of such
  an identifier in \<^verbatim>\<open>encryptedRequests\<close> is still zero, and the entry \<open>0\<close> of
  \<^verbatim>\<open>decryptedRequests\<close> is never marked processed.
\<close>

definition never_issued :: "'h state \<Rightarrow> uint256 \<Rightarrow> bool" where
  "never_issued s reqId \<longleftrightarrow> reqId = 0 \<or> unat (requestCount s) < unat reqId"

definition unissued_untouched :: "'h FHE \<Rightarrow> 'h state \<Rightarrow> bool" where
  "unissued_untouched fhe s \<longleftrightarrow>
     \<not> processed (decryptedRequests s 0) \<and>
     (\<forall>r. never_issued s r \<longrightarrow> encryptedRequests s r = zero_EncryptedRequest fhe)"

section \<open>Properties\<close>

subsection \<open>Runs and evaluation\<close>

lemmas entry_defs = submitEncryptedRequest_def requestDecryption_def decryptRequest_def
  requestAllocationDecryption_def decryptAllocation_def updateZoneAllocation_def

lemma run_snoc: "run fhe (cs @ [c]) s = transact fhe c (run fhe cs s)"
  by (induction cs arbitrary: s) auto

lemma run_invariant:
  assumes "P s" and "\<And>s c. P s \<Longrightarrow> P (transact fhe c s)"
  shows "P (run fhe cs s)"
  using assms(1) by (induction cs arbitrary: s) (auto intro: assms(2))

lemma unat_plus_one: "(x :: 'a::len word) \<noteq> - 1 \<Longrightarrow> unat (x + 1) = Suc (unat x)"
  by (metis add.commute add_eq_0_iff unatSuc)

lemma be_uint_zeros: "be_uint (replicate n 0 @ bs) = be_uint bs"
  by (induction n) (simp_all add: be_uint_def)

lemma length_abi_encode_uint32: "length (abi_encode_uint32 x) = 32"
  by (simp add: abi_encode_uint32_def)

lemma be_uint_4:
  "be_uint [a, b, c, d] = ((unat a * 256 + unat b) * 256 + unat c) * 256 + unat d"
  by (simp add: be_uint_def)

lemma abi_word_0:
  "abi_word_uint32 (abi_encode_uint32 x @ bs) 0 = abi_word_uint32 (abi_encode_uint32 x) 0"
  by (simp add: abi_word_uint32_def length_abi_encode_uint32)

lemma abi_word_1:
  "abi_word_uint32 (abi_encode_uint32 x @ abi_encode_uint32 y) 1
     = abi_word_uint32 (abi_encode_uint32 y) 0"
  by (simp add: abi_word_uint32_def length_abi_encode_uint32)

lemma decode_5_2:
  "abi_decode_uint32_uint32 (abi_encode_uint32 5 @ abi_encode_uint32 2) = Some (5, 2)"
  unfolding abi_decode_uint32_uint32_def abi_word_0 abi_word_1
  by (simp add: length_abi_encode_uint32)
     (simp add: abi_word_uint32_def abi_encode_uint32_def be_uint_zeros be_uint_4)

lemma decode_max_1:
  "abi_decode_uint32_uint32 (abi_encode_uint32 0xFFFFFFFF @ abi_encode_uint32 1)
     = Some (0xFFFFFFFF, 1)"
  unfolding abi_decode_uint32_uint32_def abi_word_0 abi_word_1
  by (simp add: length_abi_encode_uint32)
     (simp add: abi_word_uint32_def abi_encode_uint32_def be_uint_zeros be_uint_4)

lemma decode_1_1:
  "abi_decode_uint32_uint32 (abi_encode_uint32 1 @ abi_encode_uint32 1) = Some (1, 1)"
  unfolding abi_decode_uint32_uint32_def abi_word_0 abi_word_1
  by (simp add: length_abi_encode_uint32)
     (simp add: abi_word_uint32_def abi_encode_uint32_def be_uint_zeros be_uint_4)

lemma decode_3_1:
  "abi_decode_uint32_uint32 (abi_encode_uint32 3 @ abi_encode_uint32 1) = Some (3, 1)"
  unfolding abi_decode_uint32_uint32_def abi_word_0 abi_word_1
  by (simp add: length_abi_encode_uint32)
     (simp add: abi_word_uint32_def abi_encode_uint32_def be_uint_zeros be_uint_4)

lemmas plain_eval = transact_def entry_defs init_def plain_FHE_def Let_def
  zero_DecryptedRequest_def zero_EncryptedRequest_def

subsection \<open>Request identifiers\<close>

lemma submitted_ids_simps [simp]:
  "submitted_ids [] = []"
  "submitted_ids (RequestSubmitted i t # es) = i # submitted_ids es"
  "submitted_ids (DecryptionRequested r # es) = submitted_ids es"
  "submitted_ids (RequestDecrypted r # es) = submitted_ids es"
  "submitted_ids (AllocationUpdated z h # es) = submitted_ids es"
  "submitted_ids (es @ es') = submitted_ids es @ submitted_ids es'"
  by (simp_all add: submitted_ids_def)

lemma ids_step:
  assumes "ids_ok s"
  shows "ids_ok (transact fhe c s)"
  using assms
  by (cases c) (auto simp: ids_ok_def transact_def entry_defs Let_def unat_plus_one split: option.splits)

lemma ids_run: "ids_ok (run fhe cs (init fhe))"
proof (rule run_invariant)
  show "ids_ok (init fhe)" by (simp add: init_def ids_ok_def)
qed (rule ids_step)

lemma unat_plus_one_bound:
  fixes x :: uint256
  assumes "unat x + 1 < 2 ^ 256"
  shows "x \<noteq> - 1" and "unat (x + 1) = Suc (unat x)"
proof -
  have "unat (x + 1) = (unat x + 1) mod 2 ^ 256"
    by (simp add: unat_word_ariths)
  also have "\<dots> = unat x + 1"
    using assms by (rule mod_less)
  finally show "unat (x + 1) = Suc (unat x)" by simp
  then show "x \<noteq> - 1" by auto
qed

lemma submissions_progress:
  "list_all is_submission cs \<Longrightarrow> unat (requestCount s) + length cs < 2 ^ 256 \<Longrightarrow>
   unat (requestCount (run fhe cs s)) = unat (requestCount s) + length cs"
proof (induction cs arbitrary: s)
  case Nil
  then show ?case by simp
next
  case (Cons c cs)
  from Cons.prems(1) obtain d p ts where c: "c = SubmitEncryptedRequest d p ts"
    by (cases c) auto
  from Cons.prems(2) have "unat (requestCount s) + 1 < 2 ^ 256"
    by simp
  then have ne: "requestCount s \<noteq> - 1"
    by (rule unat_plus_one_bound)
  then have step: "unat (requestCount (transact fhe c s)) = Suc (unat (requestCount s))"
    by (simp add: c transact_def submitEncryptedRequest_def Let_def unat_plus_one)
  with Cons.prems have "unat (requestCount (transact fhe c s)) + length cs < 2 ^ 256"
    by simp
  with Cons.IH [of "transact fhe c s"] Cons.prems(1) step show ?case
    by simp
qed

text \<open>
  C7. Whatever calls are made to the freshly deployed contract, the identifiers announced by
  the submissions that went through are exactly \<open>1, 2, \<dots>, requestCount\<close> in the order
  of submission, \<open>0\<close> is never among them, and a sequence of fewer than \<open>2^256\<close>
  submissions goes through entirely (the counter then equals its length).
\<close>

theorem submission_ids_sequential:
  "map unat (submitted_ids (events (run fhe cs (init fhe))))
     = [1 ..< Suc (unat (requestCount (run fhe cs (init fhe))))]
   \<and> 0 \<notin> set (submitted_ids (events (run fhe cs (init fhe))))
   \<and> (list_all is_submission cs \<and> length cs < 2 ^ 256 \<longrightarrow>
        unat (requestCount (run fhe cs (init fhe))) = length cs)"
proof -
  let ?s = "run fhe cs (init fhe)"
  have a: "map unat (submitted_ids (events ?s)) = [1 ..< Suc (unat (requestCount ?s))]"
    using ids_run [of fhe cs] by (simp only: ids_ok_def)
  have b: "0 \<notin> set (submitted_ids (events ?s))"
  proof
    assume "0 \<in> set (submitted_ids (events ?s))"
    then have "unat (0 :: uint256) \<in> set (map unat (submitted_ids (events ?s)))"
      by (simp only: set_map) (rule imageI)
    then show False unfolding a by auto
  qed
  have c: "list_all is_submission cs \<and> length cs < 2 ^ 256 \<longrightarrow>
        unat (requestCount ?s) = length cs"
    using submissions_progress [of cs "init fhe" fhe] by (simp add: init_def)
  from a b c show ?thesis by blast
qed

theorem submission_ids_sequential_witness:
  "list_all is_submission
     [SubmitEncryptedRequest (Some 5) (Some 2) 100, SubmitEncryptedRequest (Some 3) (Some 1) 101,
      SubmitEncryptedRequest (Some 9) (Some 9) 102 :: uint32 option call]
   \<and> length [SubmitEncryptedRequest (Some 5) (Some 2) 100,
        SubmitEncryptedRequest (Some 3) (Some 1) 101,
        SubmitEncryptedRequest (Some 9) (Some 9) 102 :: uint32 option call] < 2 ^ 256
   \<and> map unat (submitted_ids (events (run plain_FHE
        [SubmitEncryptedRequest (Some 5) (Some 2) 100,
         SubmitEncryptedRequest (Some 3) (Some 1) 101,
         SubmitEncryptedRequest (Some 9) (Some 9) 102] (init plain_FHE)))) = [1, 2, 3]"
proof -
  let ?cs = "[SubmitEncryptedRequest (Some 5) (Some 2) 100,
              SubmitEncryptedRequest (Some 3) (Some 1) 101,
              SubmitEncryptedRequest (Some 9) (Some 9) 102 :: uint32 option call]"
  have h: "list_all is_submission ?cs \<and> length ?cs < 2 ^ 256"
    by simp
  from submission_ids_sequential [of plain_FHE ?cs] h
  have n: "unat (requestCount (run plain_FHE ?cs (init plain_FHE))) = length ?cs"
    and ids: "map unat (submitted_ids (events (run plain_FHE ?cs (init plain_FHE))))
                = [1 ..< Suc (unat (requestCount (run plain_FHE ?cs (init plain_FHE))))]"
    by blast+
  have "[1 ..< Suc (length ?cs)] = [1, 2, 3]"
    by (simp add: upt_rec)
  with n ids h show ?thesis by simp
qed

subsection \<open>Reading a request\<close>

lemma unresolved_zero_step:
  assumes "unresolved_zero s"
  shows "unresolved_zero (transact fhe c s)"
  using assms
  by (cases c)
     (auto simp: unresolved_zero_def transact_def entry_defs Let_def zero_DecryptedRequest_def
           split: option.splits)

lemma unresolved_zero_run: "unresolved_zero (run fhe cs (init fhe))"
proof (rule run_invariant)
  show "unresolved_zero (init fhe)"
    by (simp add: init_def unresolved_zero_def zero_DecryptedRequest_def)
qed (rule unresolved_zero_step)

text \<open>
  C2, as amended. \<^verbatim>\<open>getDecryptedRequest\<close> never fails: for every identifier, issued or
  not, it returns the stored triple. In every state the contract can reach, an identifier
  whose entry is not marked processed reads as \<open>(0, 0, false)\<close>, and so does the identifier
  of a request right after its submission.
\<close>

theorem getDecryptedRequest_never_fails:
  "getDecryptedRequest s reqId
     = Inr (demand (decryptedRequests s reqId), priority (decryptedRequests s reqId),
            processed (decryptedRequests s reqId))
   \<and> (\<not> processed (decryptedRequests (run fhe cs (init fhe)) reqId) \<longrightarrow>
        getDecryptedRequest (run fhe cs (init fhe)) reqId = Inr (0, 0, False))
   \<and> (submitEncryptedRequest d p ts s = Done s' \<longrightarrow>
        getDecryptedRequest s' (requestCount s') = Inr (0, 0, False))"
proof -
  have a: "getDecryptedRequest s reqId
     = Inr (demand (decryptedRequests s reqId), priority (decryptedRequests s reqId),
            processed (decryptedRequests s reqId))"
    by (simp add: getDecryptedRequest_def Let_def)
  have b: "getDecryptedRequest (run fhe cs (init fhe)) reqId = Inr (0, 0, False)"
    if "\<not> processed (decryptedRequests (run fhe cs (init fhe)) reqId)"
    using unresolved_zero_run [of fhe cs] that
    by (simp add: unresolved_zero_def getDecryptedRequest_def Let_def)
  have c: "getDecryptedRequest s' (requestCount s') = Inr (0, 0, False)"
    if "submitEncryptedRequest d p ts s = Done s'"
    using that
    by (auto simp: submitEncryptedRequest_def getDecryptedRequest_def Let_def split: if_splits)
  from a b c show ?thesis by blast
qed

theorem getDecryptedRequest_never_fails_witness:
  "\<not> processed (decryptedRequests
        (run plain_FHE [SubmitEncryptedRequest (Some 5) (Some 2) 100] (init plain_FHE)) 1)
   \<and> getDecryptedRequest
        (run plain_FHE [SubmitEncryptedRequest (Some 5) (Some 2) 100] (init plain_FHE)) 1
       = Inr (0, 0, False)
   \<and> submitEncryptedRequest (Some 5) (Some 2) 100 (init plain_FHE)
       = Done (transact plain_FHE (SubmitEncryptedRequest (Some 5) (Some 2) 100) (init plain_FHE))
   \<and> getDecryptedRequest
        (transact plain_FHE (SubmitEncryptedRequest (Some 5) (Some 2) 100) (init plain_FHE))
        (requestCount
          (transact plain_FHE (SubmitEncryptedRequest (Some 5) (Some 2) 100) (init plain_FHE)))
       = Inr (0, 0, False)"
proof -
  let ?c = "SubmitEncryptedRequest (Some 5) (Some 2) 100 :: uint32 option call"
  have h1: "\<not> processed (decryptedRequests (run plain_FHE [?c] (init plain_FHE)) 1)"
    by (simp add: plain_eval)
  have h2: "submitEncryptedRequest (Some 5) (Some 2) 100 (init plain_FHE)
              = Done (transact plain_FHE ?c (init plain_FHE))"
    by (simp add: plain_eval)
  from getDecryptedRequest_never_fails
         [of "init plain_FHE" 1 plain_FHE "[?c]" "Some 5" "Some 2" 100
             "transact plain_FHE ?c (init plain_FHE)"] h1 h2
  show ?thesis by blast
qed

text \<open>
  C2 as stated fails for an identifier that was never issued: on the freshly deployed
  contract, reading identifier \<open>7\<close> returns the zero triple and no error.
\<close>

theorem getDecryptedRequest_NotFound_counterexample:
  "getDecryptedRequest (init plain_FHE) 7 = Inr (0, 0, False)"
  by (simp add: getDecryptedRequest_def init_def zero_DecryptedRequest_def Let_def)

subsection \<open>Callbacks that were never registered\<close>

lemma requestToId_step:
  assumes "decReqId \<notin> set (registered fhe [c] s)"
  shows "requestToId (transact fhe c s) decReqId = requestToId s decReqId"
  using assms
  by (cases c) (auto simp: transact_def entry_defs Let_def split: option.splits if_splits)

lemma requestToId_run:
  "decReqId \<notin> set (registered fhe cs s) \<Longrightarrow>
   requestToId (run fhe cs s) decReqId = requestToId s decReqId"
proof (induction cs arbitrary: s)
  case Nil
  then show ?case by simp
next
  case (Cons c cs)
  from Cons.prems have 1: "decReqId \<notin> set (registered fhe [c] s)"
    and 2: "decReqId \<notin> set (registered fhe cs (transact fhe c s))"
    by simp_all
  from Cons.IH [OF 2] requestToId_step [OF 1] show ?case by simp
qed

text \<open>
  C8. If no call of the run has stored the callback identifier into \<^verbatim>\<open>requestToId\<close>,
  \<^verbatim>\<open>decryptRequest\<close> with that identifier reverts with "Invalid request" before writing
  anything, and the transaction leaves the whole state as it was.
\<close>

theorem decryptRequest_unregistered:
  assumes "decReqId \<notin> set (registered fhe cs (init fhe))"
  shows "decryptRequest fhe decReqId cleartexts pf (run fhe cs (init fhe))
           = Reverted InvalidRequest (run fhe cs (init fhe))
         \<and> transact fhe (DecryptRequest decReqId cleartexts pf) (run fhe cs (init fhe))
           = run fhe cs (init fhe)"
proof -
  have "requestToId (run fhe cs (init fhe)) decReqId = 0"
    using requestToId_run [OF assms] by (simp add: init_def)
  then show ?thesis
    by (simp add: decryptRequest_def transact_def)
qed

theorem decryptRequest_unregistered_witness:
  "8 \<notin> set (registered plain_FHE
        [SubmitEncryptedRequest (Some 5) (Some 2) 100, RequestDecryption 1 7] (init plain_FHE))
   \<and> decryptRequest plain_FHE 8 (abi_encode_uint32 5 @ abi_encode_uint32 2) [1]
        (run plain_FHE
          [SubmitEncryptedRequest (Some 5) (Some 2) 100, RequestDecryption 1 7] (init plain_FHE))
      = Reverted InvalidRequest
        (run plain_FHE
          [SubmitEncryptedRequest (Some 5) (Some 2) 100, RequestDecryption 1 7] (init plain_FHE))"
proof -
  let ?cs = "[SubmitEncryptedRequest (Some 5) (Some 2) 100, RequestDecryption 1 7]
               :: uint32 option call list"
  have h: "8 \<notin> set (registered plain_FHE ?cs (init plain_FHE))"
    by (simp add: plain_eval)
  from decryptRequest_unregistered [OF h] h show ?thesis by blast
qed

subsection \<open>Checks before writes in \<^verbatim>\<open>decryptRequest\<close>\<close>

text \<open>
  C5. Whenever \<^verbatim>\<open>decryptRequest\<close> reverts, the storage at the moment of the revert is the
  storage at entry: no statement has written yet. It reverts whenever the callback is
  unknown, the request is already processed, the proof is rejected or the cleartexts do not
  decode, and the transaction then leaves ledger, correlation table and accumulator as they
  were.
\<close>

theorem decryptRequest_check_then_act:
  "(decryptRequest fhe decReqId cleartexts pf s = Reverted e s' \<longrightarrow> s' = s)
   \<and> (requestToId s decReqId = 0
        \<or> processed (decryptedRequests s (requestToId s decReqId))
        \<or> \<not> FHE_checkSignatures fhe decReqId cleartexts pf
        \<or> abi_decode_uint32_uint32 cleartexts = None
      \<longrightarrow> (\<exists>e. decryptRequest fhe decReqId cleartexts pf s = Reverted e s)
          \<and> transact fhe (DecryptRequest decReqId cleartexts pf) s = s)"
proof -
  have a: "s' = s" if "decryptRequest fhe decReqId cleartexts pf s = Reverted e s'"
    using that by (auto simp: decryptRequest_def Let_def split: if_splits option.splits)
  have b: "\<exists>e. decryptRequest fhe decReqId cleartexts pf s = Reverted e s"
    if "requestToId s decReqId = 0
        \<or> processed (decryptedRequests s (requestToId s decReqId))
        \<or> \<not> FHE_checkSignatures fhe decReqId cleartexts pf
        \<or> abi_decode_uint32_uint32 cleartexts = None"
    using that by (auto simp: decryptRequest_def Let_def)
  have c: "transact fhe (DecryptRequest decReqId cleartexts pf) s = s"
    if "\<exists>e. decryptRequest fhe decReqId cleartexts pf s = Reverted e s"
    using that by (auto simp: transact_def)
  from a b c show ?thesis by blast
qed

theorem decryptRequest_check_then_act_witness:
  "\<not> FHE_checkSignatures plain_FHE 7 (abi_encode_uint32 3 @ abi_encode_uint32 1) []
   \<and> (\<exists>e. decryptRequest plain_FHE 7 (abi_encode_uint32 3 @ abi_encode_uint32 1) []
            (run plain_FHE
              [SubmitEncryptedRequest (Some 3) (Some 1) 100, RequestDecryption 1 7]
              (init plain_FHE))
          = Reverted e
            (run plain_FHE
              [SubmitEncryptedRequest (Some 3) (Some 1) 100, RequestDecryption 1 7]
              (init plain_FHE)))
   \<and> getDecryptedRequest
        (transact plain_FHE (DecryptRequest 7 (abi_encode_uint32 3 @ abi_encode_uint32 1) [])
          (run plain_FHE
            [SubmitEncryptedRequest (Some 3) (Some 1) 100, RequestDecryption 1 7]
            (init plain_FHE))) 1
      = Inr (0, 0, False)"
proof -
  let ?s = "run plain_FHE
              [SubmitEncryptedRequest (Some 3) (Some 1) 100, RequestDecryption 1 7]
              (init plain_FHE)"
  let ?ct = "abi_encode_uint32 3 @ abi_encode_uint32 1"
  have h: "\<not> FHE_checkSignatures plain_FHE 7 ?ct []"
    by (simp add: plain_FHE_def)
  from decryptRequest_check_then_act [of plain_FHE 7 ?ct "[]" ?s] h
  have r: "\<exists>e. decryptRequest plain_FHE 7 ?ct [] ?s = Reverted e ?s"
    and t: "transact plain_FHE (DecryptRequest 7 ?ct []) ?s = ?s"
    by blast+
  have "getDecryptedRequest ?s 1 = Inr (0, 0, False)"
    by (simp add: plain_eval getDecryptedRequest_def)
  with h r t show ?thesis by simp
qed

subsection \<open>A request is resolved once\<close>

lemma resolved_for_good_step:
  assumes "resolved_for_good r s"
  shows "resolved_for_good r (transact fhe c s)"
proof (cases c)
  case (SubmitEncryptedRequest d p ts)
  show ?thesis
  proof (cases "requestCount s = - 1")
    case True
    with assms show ?thesis
      by (simp add: SubmitEncryptedRequest transact_def submitEncryptedRequest_def)
  next
    case False
    then have n: "unat (requestCount s + 1) = Suc (unat (requestCount s))"
      by (rule unat_plus_one)
    with assms have "r \<noteq> requestCount s + 1"
      by (auto simp: resolved_for_good_def)
    with assms n False show ?thesis
      by (simp add: SubmitEncryptedRequest transact_def submitEncryptedRequest_def Let_def
            resolved_for_good_def)
  qed
next
  case (RequestDecryption reqId decReqId)
  with assms show ?thesis
    by (simp add: transact_def requestDecryption_def Let_def resolved_for_good_def)
next
  case (DecryptRequest decReqId ct pf)
  with assms show ?thesis
    by (auto simp: transact_def decryptRequest_def updateZoneAllocation_def Let_def
          resolved_for_good_def split: option.splits)
next
  case (RequestAllocationDecryption zone decReqId)
  with assms show ?thesis
    by (simp add: transact_def requestAllocationDecryption_def Let_def resolved_for_good_def)
next
  case (DecryptAllocation reqId ct pf)
  with assms show ?thesis
    by (simp add: transact_def decryptAllocation_def Let_def resolved_for_good_def
          split: option.splits)
qed

lemma decryptRequest_Done:
  assumes "decryptRequest fhe decReqId ct pf s = Done s1"
  shows "requestToId s decReqId \<noteq> 0"
    and "\<not> processed (decryptedRequests s (requestToId s decReqId))"
    and "processed (decryptedRequests s1 (requestToId s decReqId))"
    and "requestCount s1 = requestCount s"
  using assms
  by (auto simp: decryptRequest_def updateZoneAllocation_def Let_def
        split: if_splits option.splits)

lemma processed_kept_step:
  assumes "processed (decryptedRequests s r)"
    and "r \<notin> set (issued_during fhe [c] s)"
  shows "processed (decryptedRequests (transact fhe c s) r)"
  using assms
  by (cases c)
     (auto simp: transact_def entry_defs Let_def split: option.splits if_splits)

lemma processed_kept_run:
  "processed (decryptedRequests s r) \<Longrightarrow> r \<notin> set (issued_during fhe cs s) \<Longrightarrow>
   processed (decryptedRequests (run fhe cs s) r)"
proof (induction cs arbitrary: s)
  case Nil
  then show ?case by simp
next
  case (Cons c cs)
  from Cons.prems(2) have 1: "r \<notin> set (issued_during fhe [c] s)"
    and 2: "r \<notin> set (issued_during fhe cs (transact fhe c s))"
    by simp_all
  from Cons.IH [OF processed_kept_step [OF Cons.prems(1) 1] 2] show ?case by simp
qed

text \<open>
  C4, as amended. Let a callback resolve a request, and let no submission made afterwards
  issue the identifier of that request; this is always so when the identifier was already
  issued at the time of the resolution. The request was not processed before and is processed
  from then on, whatever calls follow; every later callback that leads to the same request, a
  replay of the first or another one, reverts with "Already decrypted" before writing
  anything, so the state after the failed attempt is the state before it.
\<close>

theorem second_resolution_rejected:
  assumes "decryptRequest fhe decReqId ct pf s = Done s1"
    and "unat (requestToId s decReqId) \<le> unat (requestCount s)
         \<or> requestToId s decReqId \<notin> set (issued_during fhe cs s1)"
    and "requestToId (run fhe cs s1) decReqId' = requestToId s decReqId"
  shows "\<not> processed (decryptedRequests s (requestToId s decReqId))
       \<and> processed (decryptedRequests (run fhe cs s1) (requestToId s decReqId))
       \<and> decryptRequest fhe decReqId' ct' pf' (run fhe cs s1)
           = Reverted AlreadyDecrypted (run fhe cs s1)
       \<and> transact fhe (DecryptRequest decReqId' ct' pf') (run fhe cs s1) = run fhe cs s1"
proof -
  let ?r = "requestToId s decReqId"
  note d = decryptRequest_Done [OF assms(1)]
  from assms(2) have p: "processed (decryptedRequests (run fhe cs s1) ?r)"
  proof
    assume "unat ?r \<le> unat (requestCount s)"
    with d(3,4) have "resolved_for_good ?r s1"
      by (simp add: resolved_for_good_def)
    then have "resolved_for_good ?r (run fhe cs s1)"
      by (rule run_invariant) (rule resolved_for_good_step)
    then show ?thesis
      by (simp add: resolved_for_good_def)
  next
    assume "?r \<notin> set (issued_during fhe cs s1)"
    with d(3) show ?thesis
      by (rule processed_kept_run)
  qed
  with d(1) assms(3)
  have r: "decryptRequest fhe decReqId' ct' pf' (run fhe cs s1)
             = Reverted AlreadyDecrypted (run fhe cs s1)"
    by (simp add: decryptRequest_def)
  then have "transact fhe (DecryptRequest decReqId' ct' pf') (run fhe cs s1) = run fhe cs s1"
    by (simp add: transact_def)
  with d(2) p r show ?thesis by blast
qed

theorem second_resolution_rejected_witness:
  "decryptRequest plain_FHE 7 (abi_encode_uint32 5 @ abi_encode_uint32 2) [1]
     (run plain_FHE [SubmitEncryptedRequest (Some 5) (Some 2) 100, RequestDecryption 1 7]
        (init plain_FHE))
   = Done (run plain_FHE
        [SubmitEncryptedRequest (Some 5) (Some 2) 100, RequestDecryption 1 7,
         DecryptRequest 7 (abi_encode_uint32 5 @ abi_encode_uint32 2) [1]] (init plain_FHE))
   \<and> decryptRequest plain_FHE 7 (abi_encode_uint32 5 @ abi_encode_uint32 2) [1]
       (run plain_FHE
        [SubmitEncryptedRequest (Some 5) (Some 2) 100, RequestDecryption 1 7,
         DecryptRequest 7 (abi_encode_uint32 5 @ abi_encode_uint32 2) [1],
         SubmitEncryptedRequest (Some 4) (Some 4) 101] (init plain_FHE))
     = Reverted AlreadyDecrypted
       (run plain_FHE
        [SubmitEncryptedRequest (Some 5) (Some 2) 100, RequestDecryption 1 7,
         DecryptRequest 7 (abi_encode_uint32 5 @ abi_encode_uint32 2) [1],
         SubmitEncryptedRequest (Some 4) (Some 4) 101] (init plain_FHE))
   \<and> decryptRequest plain_FHE 9 (abi_encode_uint32 5 @ abi_encode_uint32 2) [1]
       (run plain_FHE [RequestDecryption 5 9] (init plain_FHE))
     = Done (run plain_FHE
        [RequestDecryption 5 9,
         DecryptRequest 9 (abi_encode_uint32 5 @ abi_encode_uint32 2) [1]] (init plain_FHE))
   \<and> 5 \<notin> set (issued_during plain_FHE [SubmitEncryptedRequest (Some 4) (Some 4) 101]
        (run plain_FHE
          [RequestDecryption 5 9,
           DecryptRequest 9 (abi_encode_uint32 5 @ abi_encode_uint32 2) [1]] (init plain_FHE)))
   \<and> decryptRequest plain_FHE 9 (abi_encode_uint32 3 @ abi_encode_uint32 1) [1]
       (run plain_FHE
        [RequestDecryption 5 9,
         DecryptRequest 9 (abi_encode_uint32 5 @ abi_encode_uint32 2) [1],
         SubmitEncryptedRequest (Some 4) (Some 4) 101] (init plain_FHE))
     = Reverted AlreadyDecrypted
       (run plain_FHE
        [RequestDecryption 5 9,
         DecryptRequest 9 (abi_encode_uint32 5 @ abi_encode_uint32 2) [1],
         SubmitEncryptedRequest (Some 4) (Some 4) 101] (init plain_FHE))"
proof -
  let ?ct = "abi_encode_uint32 5 @ abi_encode_uint32 2"
  let ?ct' = "abi_encode_uint32 3 @ abi_encode_uint32 1"
  let ?cs = "[SubmitEncryptedRequest (Some 4) (Some 4) 101] :: uint32 option call list"
  let ?s = "run plain_FHE [SubmitEncryptedRequest (Some 5) (Some 2) 100, RequestDecryption 1 7]
              (init plain_FHE)"
  let ?s1 = "transact plain_FHE (DecryptRequest 7 ?ct [1]) ?s"
  have h1: "decryptRequest plain_FHE 7 ?ct [1] ?s = Done ?s1"
    by (simp add: plain_eval decode_5_2)
  have h2: "unat (requestToId ?s 7) \<le> unat (requestCount ?s)"
    by (simp add: plain_eval)
  have h3: "requestToId (run plain_FHE ?cs ?s1) 7 = requestToId ?s 7"
    by (simp add: plain_eval decode_5_2)
  from second_resolution_rejected [OF h1 disjI1 [OF h2] h3, of ?ct "[1]"]
  have a: "decryptRequest plain_FHE 7 ?ct [1] (run plain_FHE ?cs ?s1)
          = Reverted AlreadyDecrypted (run plain_FHE ?cs ?s1)"
    by blast
  let ?u = "run plain_FHE [RequestDecryption 5 9] (init plain_FHE)"
  let ?u1 = "transact plain_FHE (DecryptRequest 9 ?ct [1]) ?u"
  have g1: "decryptRequest plain_FHE 9 ?ct [1] ?u = Done ?u1"
    by (simp add: plain_eval decode_5_2)
  have g2: "5 \<notin> set (issued_during plain_FHE ?cs ?u1)"
    by (simp add: plain_eval decode_5_2)
  have g0: "requestToId ?u 9 = 5"
    by (simp add: plain_eval)
  have g3: "requestToId (run plain_FHE ?cs ?u1) 9 = requestToId ?u 9"
    by (simp add: plain_eval decode_5_2)
  have g2': "requestToId ?u 9 \<notin> set (issued_during plain_FHE ?cs ?u1)"
    unfolding g0 by (rule g2)
  from second_resolution_rejected [OF g1 disjI2 [OF g2'] g3, of ?ct' "[1]"]
  have b: "decryptRequest plain_FHE 9 ?ct' [1] (run plain_FHE ?cs ?u1)
          = Reverted AlreadyDecrypted (run plain_FHE ?cs ?u1)"
    by blast
  from h1 a g1 g2 b show ?thesis by simp
qed

text \<open>
  C4 as stated fails for a request whose identifier is issued after a callback has resolved
  it. On the fresh contract \<^verbatim>\<open>requestDecryption(1)\<close> registers callback \<open>9\<close> and the
  callback marks entry \<open>1\<close> processed; the first submission then issues identifier \<open>1\<close>
  and resets the entry; the replay of callback \<open>9\<close> goes through, so the flag of request
  \<open>1\<close> is set a second time and its demand is merged into the total a second time.
\<close>

theorem replay_after_submission_counterexample:
  "decryptRequest plain_FHE 9 (abi_encode_uint32 5 @ abi_encode_uint32 2) [1]
     (run plain_FHE [RequestDecryption 1 9] (init plain_FHE))
   = Done (run plain_FHE
      [RequestDecryption 1 9,
       DecryptRequest 9 (abi_encode_uint32 5 @ abi_encode_uint32 2) [1]] (init plain_FHE))
   \<and> submitted_ids (events (run plain_FHE
      [RequestDecryption 1 9,
       DecryptRequest 9 (abi_encode_uint32 5 @ abi_encode_uint32 2) [1],
       SubmitEncryptedRequest (Some 3) (Some 1) 100] (init plain_FHE))) = [1]
   \<and> decryptRequest plain_FHE 9 (abi_encode_uint32 3 @ abi_encode_uint32 1) [1]
       (run plain_FHE
        [RequestDecryption 1 9,
         DecryptRequest 9 (abi_encode_uint32 5 @ abi_encode_uint32 2) [1],
         SubmitEncryptedRequest (Some 3) (Some 1) 100] (init plain_FHE))
     = Done (run plain_FHE
        [RequestDecryption 1 9,
         DecryptRequest 9 (abi_encode_uint32 5 @ abi_encode_uint32 2) [1],
         SubmitEncryptedRequest (Some 3) (Some 1) 100,
         DecryptRequest 9 (abi_encode_uint32 3 @ abi_encode_uint32 1) [1]] (init plain_FHE))
   \<and> getDecryptedRequest (run plain_FHE
        [RequestDecryption 1 9,
         DecryptRequest 9 (abi_encode_uint32 5 @ abi_encode_uint32 2) [1],
         SubmitEncryptedRequest (Some 3) (Some 1) 100,
         DecryptRequest 9 (abi_encode_uint32 3 @ abi_encode_uint32 1) [1]] (init plain_FHE)) 1
     = Inr (3, 1, True)
   \<and> encryptedAllocation (run plain_FHE
        [RequestDecryption 1 9,
         DecryptRequest 9 (abi_encode_uint32 5 @ abi_encode_uint32 2) [1],
         SubmitEncryptedRequest (Some 3) (Some 1) 100,
         DecryptRequest 9 (abi_encode_uint32 3 @ abi_encode_uint32 1) [1]] (init plain_FHE))
       ''main_zone'' = Some 8"
  by (simp add: plain_eval decode_5_2 decode_3_1 getDecryptedRequest_def)

subsection \<open>The accumulated total\<close>

lemma unat_sum_list:
  "unat (sum_list (ds :: uint32 list)) = sum_list (map unat ds) mod 2 ^ 32"
proof (induction ds)
  case Nil
  then show ?case by simp
next
  case (Cons d ds)
  have "unat (d + sum_list ds) = (unat d + unat (sum_list ds)) mod 2 ^ 32"
    by (simp add: unat_word_ariths)
  also have "\<dots> = (unat d + sum_list (map unat ds) mod 2 ^ 32) mod 2 ^ 32"
    by (simp only: Cons.IH)
  also have "\<dots> = (unat d + sum_list (map unat ds)) mod 2 ^ 32"
    by (rule mod_add_right_eq)
  finally show ?case by simp
qed

lemma decryptRequest_total:
  assumes "decryptRequest fhe decReqId ct pf s = Done s'"
  shows "main_total s' =
           FHE_add fhe
             (if FHE_isInitialized fhe (main_total s) then main_total s else FHE_asEuint32 fhe 0)
             (euint32_conv fhe (demand (decryptedRequests s' (requestToId s decReqId))))"
  using assms
  by (auto simp: decryptRequest_def updateZoneAllocation_def Let_def main_total_def
        split: if_splits option.splits)

lemma transact_other_allocation:
  assumes "\<And>decReqId ct pf s'. c = DecryptRequest decReqId ct pf \<Longrightarrow>
             decryptRequest fhe decReqId ct pf s \<noteq> Done s'"
  shows "encryptedAllocation (transact fhe c s) = encryptedAllocation s"
proof (cases c)
  case (DecryptRequest decReqId ct pf)
  with assms have "\<And>s'. decryptRequest fhe decReqId ct pf s \<noteq> Done s'" by simp
  then show ?thesis
    by (cases "decryptRequest fhe decReqId ct pf s")
       (auto simp: DecryptRequest transact_def)
qed (simp_all add: transact_def submitEncryptedRequest_def requestDecryption_def
       requestAllocationDecryption_def decryptAllocation_def Let_def split: option.splits)

lemma no_resolution_allocation:
  "resolved_demands fhe cs s = [] \<Longrightarrow>
   encryptedAllocation (run fhe cs s) = encryptedAllocation s"
proof (induction cs arbitrary: s)
  case Nil
  then show ?case by simp
next
  case (Cons c cs)
  from Cons.prems have rest: "resolved_demands fhe cs (transact fhe c s) = []"
    by simp
  have "encryptedAllocation (transact fhe c s) = encryptedAllocation s"
  proof (rule transact_other_allocation)
    fix decReqId ct pf s'
    assume "c = DecryptRequest decReqId ct pf"
    with Cons.prems show "decryptRequest fhe decReqId ct pf s \<noteq> Done s'"
      by auto
  qed
  with Cons.IH [OF rest] show ?case by simp
qed

lemma other_zone_allocation:
  "zone \<noteq> ''main_zone'' \<Longrightarrow>
   encryptedAllocation (run fhe cs s) zone = encryptedAllocation s zone"
proof (induction cs arbitrary: s)
  case Nil
  then show ?case by simp
next
  case (Cons c cs)
  from Cons.prems have "encryptedAllocation (transact fhe c s) zone = encryptedAllocation s zone"
    by (cases c) (auto simp: transact_def entry_defs Let_def split: option.splits)
  with Cons.IH [OF Cons.prems] show ?case by simp
qed

lemma total_run:
  assumes hom: "homomorphic fhe dec"
  shows "resolved_demands fhe cs s \<noteq> [] \<Longrightarrow>
         FHE_isInitialized fhe (main_total (run fhe cs s)) \<and>
         dec (main_total (run fhe cs s))
           = (if FHE_isInitialized fhe (main_total s) then dec (main_total s) else 0)
             + sum_list (resolved_demands fhe cs s)"
proof (induction cs arbitrary: s)
  case Nil
  then show ?case by simp
next
  case (Cons c cs)
  let ?t = "transact fhe c s"
  let ?base = "\<lambda>s. if FHE_isInitialized fhe (main_total s) then dec (main_total s) else 0"
  let ?here = "case c of
        DecryptRequest decReqId ct pf \<Rightarrow>
          (case decryptRequest fhe decReqId ct pf s of
             Reverted e s' \<Rightarrow> []
           | Done s' \<Rightarrow> [demand (decryptedRequests s' (requestToId s decReqId))])
      | _ \<Rightarrow> []"
  have split: "resolved_demands fhe (c # cs) s = ?here @ resolved_demands fhe cs ?t"
    by simp
  have step: "(?here = [] \<and> main_total ?t = main_total s)
      \<or> (FHE_isInitialized fhe (main_total ?t) \<and> dec (main_total ?t) = ?base s + sum_list ?here)"
  proof (cases "\<exists>decReqId ct pf s'. c = DecryptRequest decReqId ct pf
                  \<and> decryptRequest fhe decReqId ct pf s = Done s'")
    case True
    then obtain decReqId ct pf s' where c: "c = DecryptRequest decReqId ct pf"
      and d: "decryptRequest fhe decReqId ct pf s = Done s'"
      by blast
    from d c have t: "?t = s'" by (simp add: transact_def)
    from hom decryptRequest_total [OF d] c d t show ?thesis
      by (simp add: homomorphic_def)
  next
    case False
    then have "encryptedAllocation ?t = encryptedAllocation s"
      by (intro transact_other_allocation) blast
    moreover from False have "?here = []"
      by (cases c) (auto split: result.splits)
    ultimately show ?thesis by (simp add: main_total_def)
  qed
  show ?case
  proof (cases "resolved_demands fhe cs ?t = []")
    case True
    with Cons.prems split have ne: "?here \<noteq> []" by simp
    from True have "main_total (run fhe cs ?t) = main_total ?t"
      by (simp add: main_total_def no_resolution_allocation)
    with step ne True split show ?thesis by simp
  next
    case False
    note ih = Cons.IH [OF False]
    from step ih split show ?thesis
      by (auto simp: add.assoc)
  qed
qed

text \<open>
  C1, as amended. For a library that is homomorphic for the decryption \<open>dec\<close>, after any
  run from the deployed contract in which at least one request was resolved, the total of
  \<^verbatim>\<open>main_zone\<close> decrypts to the sum of the revealed demands taken in \<^verbatim>\<open>uint32\<close>, which
  is their sum modulo \<open>2^32\<close>: each resolved demand is merged exactly once.
\<close>

theorem zone_total_is_sum_mod:
  assumes "homomorphic fhe dec"
    and "resolved_demands fhe cs (init fhe) \<noteq> []"
  shows "dec (encryptedAllocation (run fhe cs (init fhe)) ''main_zone'')
           = sum_list (resolved_demands fhe cs (init fhe))
       \<and> unat (dec (encryptedAllocation (run fhe cs (init fhe)) ''main_zone''))
           = sum_list (map unat (resolved_demands fhe cs (init fhe))) mod 2 ^ 32"
proof -
  from assms(1) have "\<not> FHE_isInitialized fhe (main_total (init fhe))"
    by (simp add: homomorphic_def main_total_def init_def)
  with total_run [OF assms(1) assms(2)]
  have "dec (main_total (run fhe cs (init fhe))) = sum_list (resolved_demands fhe cs (init fhe))"
    by simp
  then show ?thesis
    by (simp add: main_total_def unat_sum_list)
qed

lemma homomorphic_plain: "homomorphic plain_FHE plain_decrypt"
  by (simp add: homomorphic_def plain_FHE_def plain_decrypt_def split: option.splits)

theorem zone_total_is_sum_mod_witness:
  "homomorphic plain_FHE plain_decrypt
   \<and> resolved_demands plain_FHE
        [SubmitEncryptedRequest (Some 5) (Some 2) 100,
         SubmitEncryptedRequest (Some 3) (Some 1) 101,
         RequestDecryption 1 7, RequestDecryption 2 8,
         DecryptRequest 7 (abi_encode_uint32 5 @ abi_encode_uint32 2) [1],
         DecryptRequest 8 (abi_encode_uint32 3 @ abi_encode_uint32 1) [1]] (init plain_FHE)
       = [5, 3]
   \<and> unat (plain_decrypt (encryptedAllocation (run plain_FHE
        [SubmitEncryptedRequest (Some 5) (Some 2) 100,
         SubmitEncryptedRequest (Some 3) (Some 1) 101,
         RequestDecryption 1 7, RequestDecryption 2 8,
         DecryptRequest 7 (abi_encode_uint32 5 @ abi_encode_uint32 2) [1],
         DecryptRequest 8 (abi_encode_uint32 3 @ abi_encode_uint32 1) [1]] (init plain_FHE))
        ''main_zone'')) = 8"
proof -
  let ?cs = "[SubmitEncryptedRequest (Some 5) (Some 2) 100,
         SubmitEncryptedRequest (Some 3) (Some 1) 101,
         RequestDecryption 1 7, RequestDecryption 2 8,
         DecryptRequest 7 (abi_encode_uint32 5 @ abi_encode_uint32 2) [1],
         DecryptRequest 8 (abi_encode_uint32 3 @ abi_encode_uint32 1) [1]]
         :: uint32 option call list"
  have h1: "homomorphic plain_FHE plain_decrypt"
    by (rule homomorphic_plain)
  have ds: "resolved_demands plain_FHE ?cs (init plain_FHE) = [5, 3]"
    by (simp add: plain_eval decode_5_2 decode_3_1)
  then have h2: "resolved_demands plain_FHE ?cs (init plain_FHE) \<noteq> []"
    by simp
  have "unat (plain_decrypt (encryptedAllocation (run plain_FHE ?cs (init plain_FHE))
          ''main_zone'')) = sum_list (map unat [5, 3 :: uint32]) mod 2 ^ 32"
    using zone_total_is_sum_mod [OF h1 h2, THEN conjunct2] by (simp only: ds)
  then have "unat (plain_decrypt (encryptedAllocation (run plain_FHE ?cs (init plain_FHE))
          ''main_zone'')) = 8"
    by simp
  with h1 ds show ?thesis by blast
qed

text \<open>
  C1 as stated fails when the sum leaves the range of \<^verbatim>\<open>uint32\<close>: two resolved requests
  with demands \<open>2^32 - 1\<close> and \<open>1\<close> leave a total that decrypts to \<open>0\<close>, whereas the sum
  of the demands is \<open>2^32\<close>.
\<close>

theorem zone_total_overflow_counterexample:
  "resolved_demands plain_FHE
        [SubmitEncryptedRequest (Some 0xFFFFFFFF) (Some 1) 100,
         SubmitEncryptedRequest (Some 1) (Some 1) 101,
         RequestDecryption 1 7, RequestDecryption 2 8,
         DecryptRequest 7 (abi_encode_uint32 0xFFFFFFFF @ abi_encode_uint32 1) [1],
         DecryptRequest 8 (abi_encode_uint32 1 @ abi_encode_uint32 1) [1]] (init plain_FHE)
       = [0xFFFFFFFF, 1]
   \<and> unat (plain_decrypt (encryptedAllocation (run plain_FHE
        [SubmitEncryptedRequest (Some 0xFFFFFFFF) (Some 1) 100,
         SubmitEncryptedRequest (Some 1) (Some 1) 101,
         RequestDecryption 1 7, RequestDecryption 2 8,
         DecryptRequest 7 (abi_encode_uint32 0xFFFFFFFF @ abi_encode_uint32 1) [1],
         DecryptRequest 8 (abi_encode_uint32 1 @ abi_encode_uint32 1) [1]] (init plain_FHE))
        ''main_zone'')) = 0
   \<and> sum_list (map unat [0xFFFFFFFF, 1 :: uint32]) = 4294967296"
  by (simp add: plain_eval decode_max_1 decode_1_1 plain_decrypt_def)

subsection \<open>Registering a callback\<close>

text \<open>
  C3, as amended. Neither registration looks at the entry it writes: when its own guard
  passes (the request is not processed; the zone is initialised), the call succeeds and the
  table afterwards maps the callback identifier to the new domain identifier, whatever it
  held before.
\<close>

theorem registration_overwrites:
  "(\<not> processed (decryptedRequests s reqId) \<longrightarrow>
      (\<exists>s'. requestDecryption fhe reqId decReqId s = Done s'
            \<and> requestToId s' = (requestToId s)(decReqId := reqId)))
   \<and> (FHE_isInitialized fhe (encryptedAllocation s zone) \<longrightarrow>
      (\<exists>s'. requestAllocationDecryption fhe zone decReqId s = Done s'
            \<and> requestToId s' = (requestToId s)(decReqId := keccak256_packed fhe zone)))"
  by (simp add: requestDecryption_def requestAllocationDecryption_def Let_def)

theorem registration_overwrites_witness:
  "requestToId (run plain_FHE
      [SubmitEncryptedRequest (Some 5) (Some 2) 100, SubmitEncryptedRequest (Some 3) (Some 1) 101,
       RequestDecryption 1 7,
       DecryptRequest 7 (abi_encode_uint32 5 @ abi_encode_uint32 2) [1]] (init plain_FHE)) 7 = 1
   \<and> (\<exists>s'. requestDecryption plain_FHE 2 7 (run plain_FHE
      [SubmitEncryptedRequest (Some 5) (Some 2) 100, SubmitEncryptedRequest (Some 3) (Some 1) 101,
       RequestDecryption 1 7,
       DecryptRequest 7 (abi_encode_uint32 5 @ abi_encode_uint32 2) [1]] (init plain_FHE))
        = Done s' \<and> requestToId s' 7 = 2)
   \<and> (\<exists>s'. requestAllocationDecryption plain_FHE ''main_zone'' 7 (run plain_FHE
      [SubmitEncryptedRequest (Some 5) (Some 2) 100, SubmitEncryptedRequest (Some 3) (Some 1) 101,
       RequestDecryption 1 7,
       DecryptRequest 7 (abi_encode_uint32 5 @ abi_encode_uint32 2) [1]] (init plain_FHE))
        = Done s' \<and> requestToId s' 7 = 9)"
proof -
  let ?s = "run plain_FHE
      [SubmitEncryptedRequest (Some 5) (Some 2) 100, SubmitEncryptedRequest (Some 3) (Some 1) 101,
       RequestDecryption 1 7,
       DecryptRequest 7 (abi_encode_uint32 5 @ abi_encode_uint32 2) [1]] (init plain_FHE)"
  have present: "requestToId ?s 7 = 1"
    by (simp add: plain_eval decode_5_2)
  have h1: "\<not> processed (decryptedRequests ?s 2)"
    by (simp add: plain_eval decode_5_2)
  have h2: "FHE_isInitialized plain_FHE (encryptedAllocation ?s ''main_zone'')"
    by (simp add: plain_eval decode_5_2)
  have k: "keccak256_packed plain_FHE ''main_zone'' = 9"
    by (simp add: plain_FHE_def)
  from registration_overwrites [of ?s 2 plain_FHE 7 "''main_zone''"] h1 h2
  obtain s1 s2 where
    "requestDecryption plain_FHE 2 7 ?s = Done s1"
    "requestToId s1 = (requestToId ?s)(7 := 2)"
    "requestAllocationDecryption plain_FHE ''main_zone'' 7 ?s = Done s2"
    "requestToId s2 = (requestToId ?s)(7 := keccak256_packed plain_FHE ''main_zone'')"
    by blast
  with k have
    "requestDecryption plain_FHE 2 7 ?s = Done s1 \<and> requestToId s1 7 = 2"
    "requestAllocationDecryption plain_FHE ''main_zone'' 7 ?s = Done s2 \<and> requestToId s2 7 = 9"
    by simp_all
  with present show ?thesis by blast
qed

text \<open>
  C3 as stated fails: with callback \<open>7\<close> registered for request \<open>1\<close>, registering \<open>7\<close>
  again for request \<open>2\<close> succeeds and replaces the entry.
\<close>

theorem duplicate_callback_counterexample:
  "requestToId (run plain_FHE
      [SubmitEncryptedRequest (Some 5) (Some 2) 100, SubmitEncryptedRequest (Some 3) (Some 1) 101,
       RequestDecryption 1 7] (init plain_FHE)) 7 = 1
   \<and> requestDecryption plain_FHE 2 7 (run plain_FHE
      [SubmitEncryptedRequest (Some 5) (Some 2) 100, SubmitEncryptedRequest (Some 3) (Some 1) 101,
       RequestDecryption 1 7] (init plain_FHE))
     = Done (run plain_FHE
      [SubmitEncryptedRequest (Some 5) (Some 2) 100, SubmitEncryptedRequest (Some 3) (Some 1) 101,
       RequestDecryption 1 7, RequestDecryption 2 7] (init plain_FHE))
   \<and> requestToId (run plain_FHE
      [SubmitEncryptedRequest (Some 5) (Some 2) 100, SubmitEncryptedRequest (Some 3) (Some 1) 101,
       RequestDecryption 1 7, RequestDecryption 2 7] (init plain_FHE)) 7 = 2"
  by (simp add: plain_eval)

subsection \<open>A second request while the first is in flight\<close>

text \<open>
  C6, as amended. \<^verbatim>\<open>requestDecryption\<close> is rejected exactly when the request is already
  processed. While a first request is in flight the flag is still false, so a second call for
  the same request is accepted, and both callback identifiers then lead to the request.
\<close>

theorem requestDecryption_guard_is_processed:
  "((\<exists>e s'. requestDecryption fhe reqId decReqId s = Reverted e s')
      \<longleftrightarrow> processed (decryptedRequests s reqId))
   \<and> (requestDecryption fhe reqId decReqId s = Done s1 \<and> decReqId \<noteq> decReqId' \<longrightarrow>
        (\<exists>s2. requestDecryption fhe reqId decReqId' s1 = Done s2
             \<and> requestToId s2 decReqId = reqId \<and> requestToId s2 decReqId' = reqId
             \<and> \<not> processed (decryptedRequests s2 reqId)))"
  by (auto simp: requestDecryption_def Let_def split: if_splits)

theorem requestDecryption_guard_is_processed_witness:
  "requestDecryption plain_FHE 1 7
     (run plain_FHE [SubmitEncryptedRequest (Some 5) (Some 2) 100] (init plain_FHE))
   = Done (run plain_FHE [SubmitEncryptedRequest (Some 5) (Some 2) 100, RequestDecryption 1 7]
        (init plain_FHE))
   \<and> (7 :: uint256) \<noteq> 8
   \<and> (\<exists>s2. requestDecryption plain_FHE 1 8
          (run plain_FHE [SubmitEncryptedRequest (Some 5) (Some 2) 100, RequestDecryption 1 7]
            (init plain_FHE)) = Done s2
        \<and> requestToId s2 7 = 1 \<and> requestToId s2 8 = 1)"
proof -
  let ?s = "run plain_FHE [SubmitEncryptedRequest (Some 5) (Some 2) 100] (init plain_FHE)"
  let ?s1 = "run plain_FHE [SubmitEncryptedRequest (Some 5) (Some 2) 100, RequestDecryption 1 7]
        (init plain_FHE)"
  have h1: "requestDecryption plain_FHE 1 7 ?s = Done ?s1"
    by (simp add: plain_eval)
  have h2: "(7 :: uint256) \<noteq> 8"
    by simp
  from requestDecryption_guard_is_processed [of plain_FHE 1 7 ?s ?s1 8] h1 h2
  have "\<exists>s2. requestDecryption plain_FHE 1 8 ?s1 = Done s2
        \<and> requestToId s2 7 = 1 \<and> requestToId s2 8 = 1"
    by blast
  with h1 h2 show ?thesis by blast
qed

text \<open>
  C6 as stated fails: after a submission and a first \<^verbatim>\<open>requestDecryption(1)\<close>, a second
  one goes through; two requests have been handed to the oracle and both callbacks are
  registered for request \<open>1\<close>.
\<close>

theorem second_request_in_flight_counterexample:
  "requestDecryption plain_FHE 1 8
     (run plain_FHE [SubmitEncryptedRequest (Some 5) (Some 2) 100, RequestDecryption 1 7]
        (init plain_FHE))
   = Done (run plain_FHE
        [SubmitEncryptedRequest (Some 5) (Some 2) 100, RequestDecryption 1 7,
         RequestDecryption 1 8] (init plain_FHE))
   \<and> requestToId (run plain_FHE
        [SubmitEncryptedRequest (Some 5) (Some 2) 100, RequestDecryption 1 7,
         RequestDecryption 1 8] (init plain_FHE)) 7 = 1
   \<and> requestToId (run plain_FHE
        [SubmitEncryptedRequest (Some 5) (Some 2) 100, RequestDecryption 1 7,
         RequestDecryption 1 8] (init plain_FHE)) 8 = 1
   \<and> length (oracleRequests (run plain_FHE
        [SubmitEncryptedRequest (Some 5) (Some 2) 100, RequestDecryption 1 7,
         RequestDecryption 1 8] (init plain_FHE))) = 2"
  by (simp add: plain_eval)

subsection \<open>Reading a zone\<close>

text \<open>
  C9, as amended. \<^verbatim>\<open>getEncryptedAllocation\<close> never fails: it returns the stored handle of
  the zone, which is the current total of an initialised zone and the zero handle of a zone
  that no resolution has contributed to.
\<close>

theorem getEncryptedAllocation_never_fails:
  "getEncryptedAllocation s zone = Inr (encryptedAllocation s zone)
   \<and> (zone \<noteq> ''main_zone'' \<or> resolved_demands fhe cs (init fhe) = [] \<longrightarrow>
        getEncryptedAllocation (run fhe cs (init fhe)) zone = Inr (zeroHandle fhe))"
proof -
  have "encryptedAllocation (run fhe cs (init fhe)) zone = zeroHandle fhe"
    if "zone \<noteq> ''main_zone'' \<or> resolved_demands fhe cs (init fhe) = []"
    using that other_zone_allocation [of zone fhe cs "init fhe"]
      no_resolution_allocation [of fhe cs "init fhe"]
    by (auto simp: init_def)
  then show ?thesis
    by (simp add: getEncryptedAllocation_def)
qed

theorem getEncryptedAllocation_never_fails_witness:
  "''north_zone'' \<noteq> ''main_zone''
   \<and> getEncryptedAllocation (run plain_FHE
        [SubmitEncryptedRequest (Some 5) (Some 2) 100, RequestDecryption 1 7,
         DecryptRequest 7 (abi_encode_uint32 5 @ abi_encode_uint32 2) [1]] (init plain_FHE))
        ''north_zone'' = Inr None"
proof -
  let ?cs = "[SubmitEncryptedRequest (Some 5) (Some 2) 100, RequestDecryption 1 7,
              DecryptRequest 7 (abi_encode_uint32 5 @ abi_encode_uint32 2) [1]]
             :: uint32 option call list"
  have h: "''north_zone'' \<noteq> ''main_zone''"
    by simp
  have z: "zeroHandle plain_FHE = None"
    by (simp add: plain_FHE_def)
  from getEncryptedAllocation_never_fails [of "init plain_FHE" "''north_zone''" plain_FHE ?cs] h
  have "getEncryptedAllocation (run plain_FHE ?cs (init plain_FHE)) ''north_zone''
          = Inr (zeroHandle plain_FHE)"
    by blast
  then have "getEncryptedAllocation (run plain_FHE ?cs (init plain_FHE)) ''north_zone''
          = Inr None"
    by (simp only: z)
  with h show ?thesis by blast
qed

text \<open>
  C9 as stated fails for a zone that was never initialised: the read returns the zero handle
  and no error.
\<close>

theorem getEncryptedAllocation_ZoneNotFound_counterexample:
  "\<not> FHE_isInitialized plain_FHE (encryptedAllocation (init plain_FHE) ''north_zone'')
   \<and> getEncryptedAllocation (init plain_FHE) ''north_zone'' = Inr (zeroHandle plain_FHE)"
  by (simp add: getEncryptedAllocation_def init_def plain_FHE_def)

subsection \<open>Requesting the decryption of a request that does not exist\<close>

lemma unissued_untouched_step:
  assumes "unissued_untouched fhe s"
  shows "unissued_untouched fhe (transact fhe c s)"
proof (cases c)
  case (SubmitEncryptedRequest d p ts)
  show ?thesis
  proof (cases "requestCount s = - 1")
    case True
    with assms show ?thesis
      by (simp add: SubmitEncryptedRequest transact_def submitEncryptedRequest_def)
  next
    case False
    then have n: "unat (requestCount s + 1) = Suc (unat (requestCount s))"
      by (rule unat_plus_one)
    then have nz: "requestCount s + 1 \<noteq> 0"
      by auto
    from n have later: "never_issued s r \<and> r \<noteq> requestCount s + 1"
      if "never_issued (s\<lparr>requestCount := requestCount s + 1\<rparr>) r" for r
      using that nz by (auto simp: never_issued_def)
    have t: "transact fhe c s =
        s\<lparr>requestCount := requestCount s + 1,
          encryptedRequests := (encryptedRequests s)
            (requestCount s + 1 := \<lparr>id_req = requestCount s + 1, encryptedDemand = d,
               encryptedPriority = p, timestamp = ts\<rparr>),
          decryptedRequests := (decryptedRequests s)
            (requestCount s + 1 := \<lparr>demand = 0, priority = 0, processed = False\<rparr>),
          events := events s @ [RequestSubmitted (requestCount s + 1) ts]\<rparr>"
      using False
      by (simp add: SubmitEncryptedRequest transact_def submitEncryptedRequest_def Let_def)
    have ni: "never_issued (transact fhe c s) r = never_issued (s\<lparr>requestCount := requestCount s + 1\<rparr>) r" for r
      by (simp add: t never_issued_def)
    from assms later show ?thesis
      unfolding unissued_untouched_def ni
      by (auto simp: t)
  qed
next
  case (RequestDecryption reqId decReqId)
  with assms show ?thesis
    by (simp add: transact_def requestDecryption_def Let_def unissued_untouched_def
          never_issued_def)
next
  case (DecryptRequest decReqId ct pf)
  with assms show ?thesis
    by (auto simp: transact_def decryptRequest_def updateZoneAllocation_def Let_def
          unissued_untouched_def never_issued_def split: option.splits)
next
  case (RequestAllocationDecryption zone decReqId)
  with assms show ?thesis
    by (simp add: transact_def requestAllocationDecryption_def Let_def unissued_untouched_def
          never_issued_def)
next
  case (DecryptAllocation reqId ct pf)
  with assms show ?thesis
    by (simp add: transact_def decryptAllocation_def Let_def unissued_untouched_def
          never_issued_def split: option.splits)
qed

lemma unissued_untouched_run: "unissued_untouched fhe (run fhe cs (init fhe))"
proof (rule run_invariant)
  show "unissued_untouched fhe (init fhe)"
    by (simp add: unissued_untouched_def init_def zero_DecryptedRequest_def)
qed (rule unissued_untouched_step)

lemma unresolved_step:
  assumes "r \<notin> set (resolved_ids fhe [c] s)"
    and "\<not> processed (decryptedRequests s r)"
  shows "\<not> processed (decryptedRequests (transact fhe c s) r)"
  using assms
  by (cases c)
     (auto simp: transact_def entry_defs Let_def split: option.splits if_splits)

lemma unresolved_run:
  "r \<notin> set (resolved_ids fhe cs s) \<Longrightarrow> \<not> processed (decryptedRequests s r) \<Longrightarrow>
   \<not> processed (decryptedRequests (run fhe cs s) r)"
proof (induction cs arbitrary: s)
  case Nil
  then show ?case by simp
next
  case (Cons c cs)
  from Cons.prems(1) have 1: "r \<notin> set (resolved_ids fhe [c] s)"
    and 2: "r \<notin> set (resolved_ids fhe cs (transact fhe c s))"
    by simp_all
  from unresolved_step [OF 1 Cons.prems(2)] Cons.IH [OF 2] show ?case by simp
qed

lemma zero_never_resolved: "0 \<notin> set (resolved_ids fhe cs s)"
proof (induction cs arbitrary: s)
  case Nil
  then show ?case by simp
next
  case (Cons c cs)
  have "0 \<notin> set (resolved_ids fhe [c] s)"
    by (cases c) (auto simp: decryptRequest_def Let_def split: result.splits if_splits)
  with Cons.IH [of "transact fhe c s"] show ?case by simp
qed

text \<open>
  C10, as amended. In every state the contract can reach, \<^verbatim>\<open>requestDecryption\<close> with an
  identifier that was never issued succeeds unless a callback registered for that identifier
  has been resolved in the meantime (which never happens for \<open>0\<close>): the entry is not marked
  processed, and the call hands the two zero handles to the oracle, registers the callback for
  the identifier and announces it.
\<close>

theorem requestDecryption_never_issued:
  "0 \<notin> set (resolved_ids fhe cs (init fhe))
   \<and> (never_issued (run fhe cs (init fhe)) reqId
        \<and> reqId \<notin> set (resolved_ids fhe cs (init fhe)) \<longrightarrow>
      \<not> processed (decryptedRequests (run fhe cs (init fhe)) reqId)
      \<and> requestDecryption fhe reqId decReqId (run fhe cs (init fhe))
        = Done ((run fhe cs (init fhe))
            \<lparr>requestToId := (requestToId (run fhe cs (init fhe)))(decReqId := reqId),
             events := events (run fhe cs (init fhe)) @ [DecryptionRequested reqId],
             oracleRequests := oracleRequests (run fhe cs (init fhe)) @
               [([FHE_toBytes32 fhe (zeroHandle fhe), FHE_toBytes32 fhe (zeroHandle fhe)],
                 decryptRequest_selector)]\<rparr>))"
proof -
  let ?s = "run fhe cs (init fhe)"
  have inv: "unissued_untouched fhe ?s"
    by (rule unissued_untouched_run)
  have a: "0 \<notin> set (resolved_ids fhe cs (init fhe))"
    by (rule zero_never_resolved)
  have b: "\<not> processed (decryptedRequests ?s reqId)"
    if "reqId \<notin> set (resolved_ids fhe cs (init fhe))"
    using that by (rule unresolved_run) (simp add: init_def zero_DecryptedRequest_def)
  have c: "requestDecryption fhe reqId decReqId ?s
        = Done (?s\<lparr>requestToId := (requestToId ?s)(decReqId := reqId),
             events := events ?s @ [DecryptionRequested reqId],
             oracleRequests := oracleRequests ?s @
               [([FHE_toBytes32 fhe (zeroHandle fhe), FHE_toBytes32 fhe (zeroHandle fhe)],
                 decryptRequest_selector)]\<rparr>)"
    if "never_issued ?s reqId" and "\<not> processed (decryptedRequests ?s reqId)"
  proof -
    from inv that(1) have "encryptedRequests ?s reqId = zero_EncryptedRequest fhe"
      by (simp add: unissued_untouched_def)
    with that(2) show ?thesis
      by (simp add: requestDecryption_def Let_def zero_EncryptedRequest_def)
  qed
  from a b c show ?thesis by blast
qed

theorem requestDecryption_never_issued_witness:
  "never_issued (run plain_FHE [SubmitEncryptedRequest (Some 5) (Some 2) 100] (init plain_FHE)) 5
   \<and> 5 \<notin> set (resolved_ids plain_FHE [SubmitEncryptedRequest (Some 5) (Some 2) 100]
              (init plain_FHE))
   \<and> (\<exists>s'. requestDecryption plain_FHE 5 9
          (run plain_FHE [SubmitEncryptedRequest (Some 5) (Some 2) 100] (init plain_FHE))
        = Done s' \<and> requestToId s' 9 = 5 \<and> oracleRequests s' = [([0, 0], decryptRequest_selector)])"
proof -
  let ?cs = "[SubmitEncryptedRequest (Some 5) (Some 2) 100] :: uint32 option call list"
  let ?s = "run plain_FHE ?cs (init plain_FHE)"
  have h1: "never_issued ?s 5"
    by (simp add: never_issued_def plain_eval)
  have h2: "5 \<notin> set (resolved_ids plain_FHE ?cs (init plain_FHE))"
    by simp
  let ?s' = "?s\<lparr>requestToId := (requestToId ?s)(9 := 5),
             events := events ?s @ [DecryptionRequested 5],
             oracleRequests := oracleRequests ?s @
               [([FHE_toBytes32 plain_FHE (zeroHandle plain_FHE),
                  FHE_toBytes32 plain_FHE (zeroHandle plain_FHE)],
                 decryptRequest_selector)]\<rparr>"
  from requestDecryption_never_issued [of plain_FHE ?cs 5 9] h1 h2
  have r: "requestDecryption plain_FHE 5 9 ?s = Done ?s'"
    by blast
  have t: "requestToId ?s' 9 = 5"
    by simp
  have o: "oracleRequests ?s' = [([0, 0], decryptRequest_selector)]"
    by (simp add: plain_eval)
  from r t o have "\<exists>s'. requestDecryption plain_FHE 5 9 ?s = Done s' \<and> requestToId s' 9 = 5
      \<and> oracleRequests s' = [([0, 0], decryptRequest_selector)]"
    by blast
  with h1 h2 show ?thesis by blast
qed

text \<open>
  C10 as stated fails once a callback registered for the inexistent request has been
  resolved: with no submission at all, \<^verbatim>\<open>requestDecryption(5)\<close> followed by its callback
  marks entry \<open>5\<close> processed, and the next \<^verbatim>\<open>requestDecryption(5)\<close> reverts.
\<close>

theorem requestDecryption_never_issued_counterexample:
  "requestCount (run plain_FHE
      [RequestDecryption 5 9,
       DecryptRequest 9 (abi_encode_uint32 1 @ abi_encode_uint32 1) [1]] (init plain_FHE)) = 0
   \<and> requestDecryption plain_FHE 5 10 (run plain_FHE
      [RequestDecryption 5 9,
       DecryptRequest 9 (abi_encode_uint32 1 @ abi_encode_uint32 1) [1]] (init plain_FHE))
     = Reverted AlreadyDecrypted (run plain_FHE
      [RequestDecryption 5 9,
       DecryptRequest 9 (abi_encode_uint32 1 @ abi_encode_uint32 1) [1]] (init plain_FHE))"
  by (simp add: plain_eval decode_1_1)

end
